theory Spec2Isabelle
  imports Main "HOL-Library.List_Lexorder" "HOL-Library.Char_ord" "HOL-Library.Sublist"
begin

section \<open>Python values, exceptions and strings\<close>

text \<open>
  The views of \<^verbatim>\<open>termsandconditions/views.py\<close> are embedded as HOL functions.
  Every exception a view can raise is a value of \<open>exn\<close>; a computation that may raise
  returns \<open>exn + 'a\<close>, with \<open>Inl\<close> the exception.

  A string is a list of characters; a \<open>char\<close> stands for the code point of the same
  number, so the model covers the strings whose code points are below 256 (the range
  of the values a WSGI server puts into \<^verbatim>\<open>request.META\<close>).
\<close>

datatype exn =
    TypeError
  | ValueError
  | KeyError
  | DoesNotExist
  | MultipleObjectsReturned
  | IntegrityError
  | SMTPException
  | ImproperlyConfigured
  | ValidationError
  | IndexError
  | OtherException string

definition code :: "char \<Rightarrow> nat" where
  "code c = of_char c"

text \<open>\<^verbatim>\<open>str.isspace\<close> on one character, for the code points below 256.\<close>

definition is_space :: "char \<Rightarrow> bool" where
  "is_space c =
     ((9 \<le> code c \<and> code c \<le> 13) \<or> (28 \<le> code c \<and> code c \<le> 32)
      \<or> code c = 133 \<or> code c = 160)"

text \<open>\<^verbatim>\<open>s.strip()\<close>: the whitespace at both ends is dropped.\<close>

definition py_strip :: "string \<Rightarrow> string" where
  "py_strip s = rev (dropWhile is_space (rev (dropWhile is_space s)))"

text \<open>\<^verbatim>\<open>s.split(sep)\<close> for a separator of one character; the result is never empty.\<close>

fun py_split :: "char \<Rightarrow> string \<Rightarrow> string list" where
  "py_split sep [] = [[]]"
| "py_split sep (c # cs) =
     (if c = sep then [] # py_split sep cs
      else (case py_split sep cs of
              [] \<Rightarrow> [[c]]
            | w # ws \<Rightarrow> (c # w) # ws))"

text \<open>\<^verbatim>\<open>xs[0]\<close> raises IndexError on an empty list.\<close>

definition index0 :: "'a list \<Rightarrow> exn + 'a" where
  "index0 xs = (case xs of [] \<Rightarrow> Inl IndexError | x # _ \<Rightarrow> Inr x)"

text \<open>Sequencing of computations that may raise: the first exception ends the run.\<close>

definition and_then :: "exn + 'a \<Rightarrow> ('a \<Rightarrow> exn + 'b) \<Rightarrow> exn + 'b" where
  "and_then x f = (case x of Inl e \<Rightarrow> Inl e | Inr v \<Rightarrow> f v)"

definition is_digit :: "char \<Rightarrow> bool" where
  "is_digit c = (48 \<le> code c \<and> code c \<le> 57)"

definition digit_value :: "char \<Rightarrow> nat" where
  "digit_value c = code c - 48"

text \<open>
  \<^verbatim>\<open>int(s)\<close> on a string, base 10: surrounding whitespace is ignored, one sign is
  allowed, then decimal digits, with single underscores between digits. \<open>None\<close> is
  the ValueError. \<open>py_digits\<close> reads the rest of the literal once a digit has been
  read.
\<close>

fun py_digits :: "nat \<Rightarrow> string \<Rightarrow> nat option" where
  "py_digits acc [] = Some acc"
| "py_digits acc [c] = (if is_digit c then Some (10 * acc + digit_value c) else None)"
| "py_digits acc (c # d # ds) =
     (if is_digit c then py_digits (10 * acc + digit_value c) (d # ds)
      else if c = CHR ''_'' \<and> is_digit d then py_digits (10 * acc + digit_value d) ds
      else None)"

definition py_nat :: "string \<Rightarrow> nat option" where
  "py_nat s =
     (case s of
        [] \<Rightarrow> None
      | c # cs \<Rightarrow> if is_digit c then py_digits (digit_value c) cs else None)"

definition py_int :: "string \<Rightarrow> int option" where
  "py_int s =
     (case py_strip s of
        [] \<Rightarrow> None
      | c # cs \<Rightarrow>
          if c = CHR ''-'' then map_option (\<lambda>n. - int n) (py_nat cs)
          else if c = CHR ''+'' then map_option int (py_nat cs)
          else map_option int (py_nat (c # cs)))"

section \<open>Dictionaries of the request\<close>

text \<open>
  \<^verbatim>\<open>get_return_to\<close> is called with \<^verbatim>\<open>request.GET\<close> and \<^verbatim>\<open>request.POST\<close>
  (a QueryDict: every key holds a list of values) and with \<^verbatim>\<open>form.cleaned_data\<close> (a
  plain dict). \<open>dict_value\<close> is the value \<^verbatim>\<open>d[key]\<close> would give where
  \<^verbatim>\<open>d.get(key, default)\<close> does not fall back to the default: for a QueryDict the last
  value of a non-empty list.
\<close>

datatype pydict =
    Dict "string \<rightharpoonup> string"
  | QueryDict "string \<rightharpoonup> string list"

fun dict_value :: "pydict \<Rightarrow> string \<Rightarrow> string option" where
  "dict_value (Dict m) k = m k"
| "dict_value (QueryDict m) k =
     (case m k of
        None \<Rightarrow> None
      | Some [] \<Rightarrow> None
      | Some (v # vs) \<Rightarrow> Some (last (v # vs)))"

definition dict_get :: "pydict \<Rightarrow> string \<Rightarrow> string \<Rightarrow> string" where
  "dict_get d k dflt = (case dict_value d k of None \<Rightarrow> dflt | Some v \<Rightarrow> v)"

text \<open>\<^verbatim>\<open>QueryDict.getlist(key)\<close>: the list of values, empty when the key is absent.\<close>

definition getlist :: "(string \<rightharpoonup> string list) \<Rightarrow> string \<Rightarrow> string list" where
  "getlist m k = (case m k of None \<Rightarrow> [] | Some vs \<Rightarrow> vs)"

section \<open>Settings\<close>

text \<open>
  The settings the views read. A setting read with \<^verbatim>\<open>getattr(settings, name, default)\<close>
  is an option, \<open>None\<close> when it is not set. \<open>host_and_scheme_allowed\<close> is the
  check of a non-empty URL against \<^verbatim>\<open>settings.ALLOWED_HOSTS\<close>; it is Django's code,
  and the views are verified for every such predicate. \<open>database_nulls_high\<close> is a
  property of the backend named in \<^verbatim>\<open>settings.DATABASES\<close>: whether NULL sorts above
  every value (PostgreSQL, Oracle) or below (SQLite, MySQL).
\<close>

record settings =
  TERMS_STORE_IP_ADDRESS :: "bool option"
  TERMS_IP_HEADER_NAME :: "string option"
  TERMS_CACHE_SECONDS_setting :: "nat option"
  DEFAULT_FROM_EMAIL :: string
  host_and_scheme_allowed :: "string \<Rightarrow> bool"
  database_nulls_high :: bool

definition DEFAULT_TERMS_IP_HEADER_NAME :: string where
  "DEFAULT_TERMS_IP_HEADER_NAME = ''REMOTE_ADDR''"

definition TERMS_CACHE_SECONDS :: "settings \<Rightarrow> nat" where
  "TERMS_CACHE_SECONDS cfg =
     (case TERMS_CACHE_SECONDS_setting cfg of None \<Rightarrow> 30 | Some n \<Rightarrow> n)"

section \<open>The return URL\<close>

text \<open>
  \<^verbatim>\<open>django.utils.encoding.iri_to_uri\<close> is
  \<^verbatim>\<open>quote(iri, safe="/#%[]=:;$&()+,!?*@'~")\<close>: the string is encoded in UTF-8, and
  every byte that is not an ASCII letter, a digit, one of \<^verbatim>\<open>_.-~\<close> or a safe
  character is written \<^verbatim>\<open>%XX\<close> in upper-case hexadecimal.
\<close>

definition hex_digit :: "nat \<Rightarrow> char" where
  "hex_digit n = (if n < 10 then char_of (48 + n) else char_of (55 + n))"

definition percent :: "nat \<Rightarrow> string" where
  "percent b = [CHR ''%'', hex_digit (b div 16), hex_digit (b mod 16)]"

definition utf8 :: "char \<Rightarrow> nat list" where
  "utf8 c = (if code c < 128 then [code c] else [192 + code c div 64, 128 + code c mod 64])"

definition always_safe :: "nat \<Rightarrow> bool" where
  "always_safe b =
     ((65 \<le> b \<and> b \<le> 90) \<or> (97 \<le> b \<and> b \<le> 122) \<or> (48 \<le> b \<and> b \<le> 57)
      \<or> b \<in> set (map code ''_.-~''))"

definition iri_safe :: "nat \<Rightarrow> bool" where
  "iri_safe b = (b \<in> set (map code (''/#%[]=:;$&()+,!?*@'' @ [CHR 0x27] @ ''~'')))"

definition quote_byte :: "nat \<Rightarrow> string" where
  "quote_byte b = (if always_safe b \<or> iri_safe b then [char_of b] else percent b)"

definition iri_to_uri :: "string \<Rightarrow> string" where
  "iri_to_uri iri = concat (map quote_byte (concat (map utf8 iri)))"

text \<open>
  \<^verbatim>\<open>django.utils.http.url_has_allowed_host_and_scheme\<close> strips the URL and answers
  False for an empty one, before it looks at hosts and schemes.
\<close>

definition url_has_allowed_host_and_scheme :: "settings \<Rightarrow> string \<Rightarrow> bool" where
  "url_has_allowed_host_and_scheme cfg url =
     (let u = py_strip url in if u = [] then False else host_and_scheme_allowed cfg u)"

definition is_safe_url :: "settings \<Rightarrow> string \<Rightarrow> bool" where
  "is_safe_url cfg url = url_has_allowed_host_and_scheme cfg url"

definition get_return_to :: "settings \<Rightarrow> pydict \<Rightarrow> string" where
  "get_return_to cfg from_dict =
     (let return_to = dict_get from_dict ''returnTo'' ''/''
      in if is_safe_url cfg return_to then iri_to_uri return_to else ''/'')"

section \<open>The data model\<close>

text \<open>
  Modelled from the spec: the fields of \<open>TermsAndConditions\<close> are declared in the model
  module, which is not among the sources; the spec makes \<open>version_number\<close> an integer or
  decimal. A decimal is a coefficient and an exponent of ten, and two decimals are equal
  when their values are, so that 1, 1.0 and 1.00 are one version.
\<close>

datatype decimal = Decimal int int

definition dec_eq :: "decimal \<Rightarrow> decimal \<Rightarrow> bool" where
  "dec_eq a b =
     (case a of Decimal m e \<Rightarrow>
        (case b of Decimal n f \<Rightarrow>
           m * 10 ^ nat (e - min e f) = n * 10 ^ nat (f - min e f)))"

text \<open>
  Modelled from the spec: a lookup on \<open>version_number\<close> turns the text of the URL into a
  decimal first, and fails with a ValidationError for a text that is no finite decimal
  number. The syntax is that of \<^verbatim>\<open>decimal.Decimal(text)\<close>: whitespace around the
  text and underscores are ignored; then come an optional sign, digits with at most one
  point and at least one digit, and an optional exponent, the letter e with an optional
  sign and digits.
\<close>

definition digits_value :: "string \<Rightarrow> nat" where
  "digits_value ds = foldl (\<lambda>acc c. 10 * acc + digit_value c) 0 ds"

definition py_exponent :: "string \<Rightarrow> int option" where
  "py_exponent rest =
     (case rest of
        [] \<Rightarrow> Some 0
      | _ # es \<Rightarrow>
          (let neg = (take 1 es = ''-'');
               ds = (if take 1 es = ''-'' \<or> take 1 es = ''+'' then drop 1 es else es)
           in if ds \<noteq> [] \<and> list_all is_digit ds
              then Some (if neg then - int (digits_value ds) else int (digits_value ds))
              else None))"

definition py_decimal :: "string \<Rightarrow> decimal option" where
  "py_decimal text =
     (let s = filter (\<lambda>c. c \<noteq> CHR ''_'') (py_strip text);
          neg = (take 1 s = ''-'');
          body = (if take 1 s = ''-'' \<or> take 1 s = ''+'' then drop 1 s else s);
          mantissa = takeWhile (\<lambda>c. c \<noteq> CHR ''e'' \<and> c \<noteq> CHR ''E'') body;
          rest = dropWhile (\<lambda>c. c \<noteq> CHR ''e'' \<and> c \<noteq> CHR ''E'') body;
          whole = takeWhile (\<lambda>c. c \<noteq> CHR ''.'') mantissa;
          fraction = drop 1 (dropWhile (\<lambda>c. c \<noteq> CHR ''.'') mantissa)
      in if whole @ fraction \<noteq> [] \<and> list_all is_digit whole \<and> list_all is_digit fraction
         then (case py_exponent rest of
                 None \<Rightarrow> None
               | Some e \<Rightarrow>
                   Some (Decimal
                          (if neg then - int (digits_value (whole @ fraction))
                           else int (digits_value (whole @ fraction)))
                          (e - int (length fraction))))
         else None)"

text \<open>
  The rows of the three tables the views touch. \<open>TermsAndConditions\<close> rows carry the
  fields the views use; \<open>date_active\<close> is a timestamp, \<open>None\<close> for a NULL column. A
  \<open>UserTermsAndConditions\<close> row holds the fields the view sets.
\<close>

record terms_row =
  pk :: int
  slug :: string
  version_number :: decimal
  date_active :: "int option"

record user_row =
  user_pk :: int
  username :: string

record userterms_row =
  ut_user :: int
  ut_terms :: int
  ip_address :: string

datatype level = INFO | ERROR

text \<open>
  The state the views act on: the tables, the cache (a key holds a value and its
  timeout in seconds), the sequence of \<^verbatim>\<open>cache.set\<close> calls issued so far, and the
  messages added to the request. The cache is one that stores what it is given; no entry
  expires or is evicted while a view runs. A queryset written to the cache is evaluated
  when it is written, so the cache holds a list of rows.
\<close>

record state =
  terms_table :: "terms_row list"
  user_table :: "user_row list"
  userterms_table :: "userterms_row list"
  cache :: "string \<rightharpoonup> (terms_row list \<times> nat)"
  cache_sets :: "(string \<times> terms_row list \<times> nat) list"
  messages :: "(level \<times> string) list"

text \<open>\<^verbatim>\<open>Model.objects.get(...)\<close>: the one row that satisfies the condition.\<close>

definition objects_get :: "('a \<Rightarrow> bool) \<Rightarrow> 'a list \<Rightarrow> exn + 'a" where
  "objects_get cond rows =
     (case filter cond rows of
        [] \<Rightarrow> Inl DoesNotExist
      | [r] \<Rightarrow> Inr r
      | _ # _ # _ \<Rightarrow> Inl MultipleObjectsReturned)"

text \<open>
  Modelled from the spec: the uniqueness constraint on (user, terms) is declared with the
  \<open>UserTermsAndConditions\<close> model, which is not among the sources; the spec states it
  as the invariant of the acceptance record. \<^verbatim>\<open>save()\<close> inserts the row, or raises
  IntegrityError when a row with the same user and terms is stored already.
\<close>

definition accepted :: "userterms_row list \<Rightarrow> int \<Rightarrow> int \<Rightarrow> bool" where
  "accepted rows u t = (\<exists>r \<in> set rows. ut_user r = u \<and> ut_terms r = t)"

definition save :: "userterms_row \<Rightarrow> state \<Rightarrow> exn + state" where
  "save r st =
     (if accepted (userterms_table st) (ut_user r) (ut_terms r) then Inl IntegrityError
      else Inr (st\<lparr>userterms_table := userterms_table st @ [r]\<rparr>))"

definition cache_set :: "string \<Rightarrow> terms_row list \<Rightarrow> nat \<Rightarrow> state \<Rightarrow> state" where
  "cache_set k v timeout st =
     st\<lparr>cache := (cache st)(k \<mapsto> (v, timeout)),
        cache_sets := cache_sets st @ [(k, v, timeout)]\<rparr>"

text \<open>
  The class methods of \<open>TermsAndConditions\<close> that the views call are defined with the
  model, not in the views; the views are verified for every result they may give.
  \<open>get_active_terms_list\<close> reads the terms table only.
\<close>

record models_api =
  get_active_terms_list :: "terms_row list \<Rightarrow> terms_row list"
  get_active :: "state \<Rightarrow> string \<Rightarrow> exn + terms_row"
  get_active_terms_not_agreed_to :: "state \<Rightarrow> user_row option \<Rightarrow> terms_row list"

section \<open>The request\<close>

text \<open>
  The session holds JSON-like values; \<open>py_getitem\<close> is \<^verbatim>\<open>value[key]\<close> with a string
  key: a KeyError for a missing key of a dict, a TypeError for a value that is no dict.
\<close>

datatype json = JNull | JInt int | JStr string | JObj "(string \<times> json) list"

definition py_getitem :: "json \<Rightarrow> string \<Rightarrow> exn + json" where
  "py_getitem v k =
     (case v of
        JObj kvs \<Rightarrow> (case map_of kvs k of None \<Rightarrow> Inl KeyError | Some x \<Rightarrow> Inr x)
      | _ \<Rightarrow> Inl TypeError)"

record request =
  GET :: "string \<rightharpoonup> string list"
  POST :: "string \<rightharpoonup> string list"
  user :: "user_row option"
  session :: "string \<rightharpoonup> json"
  META :: "string \<rightharpoonup> string"

datatype response = HttpResponseRedirect string

section \<open>AcceptTermsView.post\<close>

text \<open>\<^verbatim>\<open>User.objects.get(id=user_pk)\<close> for the value found in the session.\<close>

definition get_user :: "state \<Rightarrow> json \<Rightarrow> exn + user_row" where
  "get_user st user_pk_value =
     (case user_pk_value of
        JInt n \<Rightarrow> objects_get (\<lambda>u. user_pk u = n) (user_table st)
      | JStr s \<Rightarrow>
          (case py_int s of
             None \<Rightarrow> Inl ValueError
           | Some n \<Rightarrow> objects_get (\<lambda>u. user_pk u = n) (user_table st))
      | JNull \<Rightarrow> Inl DoesNotExist
      | JObj _ \<Rightarrow> Inl TypeError)"

text \<open>
  Lines 110 to 118: the user of the request, or the user saved in the partial pipeline.
  \<open>Inr None\<close> is the case that ends the view with a redirect to \<^verbatim>\<open>/\<close>.
\<close>

definition post_user :: "request \<Rightarrow> state \<Rightarrow> exn + user_row option" where
  "post_user req st =
     (case user req of
        Some u \<Rightarrow> Inr (Some u)
      | None \<Rightarrow>
          (case session req ''partial_pipeline'' of
             None \<Rightarrow> Inr None
           | Some pipeline \<Rightarrow>
               and_then (py_getitem pipeline ''kwargs'') (\<lambda>kw.
               and_then (py_getitem kw ''user'') (\<lambda>u.
               and_then (py_getitem u ''pk'') (\<lambda>user_pk_value.
               and_then (get_user st user_pk_value) (\<lambda>usr. Inr (Some usr)))))))"

text \<open>
  Lines 120 to 128: the address to record. \<^verbatim>\<open>request.META.get(name)\<close> is None for an
  absent header, and \<^verbatim>\<open>"," in None\<close> raises TypeError.
\<close>

definition post_ip_address :: "settings \<Rightarrow> request \<Rightarrow> exn + string" where
  "post_ip_address cfg req =
     (let store_ip_address = (case TERMS_STORE_IP_ADDRESS cfg of None \<Rightarrow> True | Some b \<Rightarrow> b)
      in if store_ip_address then
           (case META req (case TERMS_IP_HEADER_NAME cfg of
                             None \<Rightarrow> DEFAULT_TERMS_IP_HEADER_NAME
                           | Some name \<Rightarrow> name) of
              None \<Rightarrow> Inl TypeError
            | Some ip \<Rightarrow>
                if CHR '','' \<in> set ip
                then and_then (index0 (py_split (CHR '','') ip)) (\<lambda>w. Inr (py_strip w))
                else Inr ip)
         else Inr [])"

text \<open>
  Lines 138 to 144: the active terms, without those that have a \<open>UserTermsAndConditions\<close>
  row of the user, ordered by slug. Slugs are compared character by character, by code
  point (the collation of the backend is not modelled); rows with the same slug keep the
  order of the active list.
\<close>

definition not_agreed_terms :: "models_api \<Rightarrow> user_row \<Rightarrow> state \<Rightarrow> terms_row list" where
  "not_agreed_terms api usr st =
     sort_key slug
       (filter (\<lambda>t. \<not> (\<exists>r \<in> set (filter (\<lambda>r. ut_user r = user_pk usr) (userterms_table st)).
                          ut_terms r = pk t))
          (get_active_terms_list api (terms_table st)))"

definition not_agreed_key :: "user_row \<Rightarrow> string" where
  "not_agreed_key usr = ''tandc.not_agreed_terms_'' @ username usr"

text \<open>Lines 132 to 149: the body of the \<^verbatim>\<open>try\<close>.\<close>

definition post_try :: "settings \<Rightarrow> models_api \<Rightarrow> user_row \<Rightarrow> string \<Rightarrow> string \<Rightarrow> state \<Rightarrow> exn + state" where
  "post_try cfg api usr ip terms_id st =
     (case py_int terms_id of
        None \<Rightarrow> Inl ValueError
      | Some n \<Rightarrow>
          and_then (objects_get (\<lambda>t. pk t = n) (terms_table st)) (\<lambda>t.
          and_then (save \<lparr>ut_user = user_pk usr, ut_terms = pk t, ip_address = ip\<rparr> st) (\<lambda>st1.
          Inr (cache_set (not_agreed_key usr) (not_agreed_terms api usr st1)
                 (TERMS_CACHE_SECONDS cfg) st1))))"

text \<open>Lines 131 to 151: one pass of the loop; only IntegrityError is caught.\<close>

definition post_step :: "settings \<Rightarrow> models_api \<Rightarrow> user_row \<Rightarrow> string \<Rightarrow> string \<Rightarrow> state \<Rightarrow> exn + state" where
  "post_step cfg api usr ip terms_id st =
     (case post_try cfg api usr ip terms_id st of
        Inl e \<Rightarrow> if e = IntegrityError then Inr st else Inl e
      | Inr st1 \<Rightarrow> Inr st1)"

text \<open>
  Lines 130 to 151: the loop. An exception ends it; the rows saved and the cache entries
  written before it stay (each \<^verbatim>\<open>save()\<close> commits on its own).
\<close>

fun post_loop :: "settings \<Rightarrow> models_api \<Rightarrow> user_row \<Rightarrow> string \<Rightarrow> string list \<Rightarrow> state \<Rightarrow> exn option \<times> state" where
  "post_loop cfg api usr ip [] st = (None, st)"
| "post_loop cfg api usr ip (terms_id # rest) st =
     (case post_step cfg api usr ip terms_id st of
        Inl e \<Rightarrow> (Some e, st)
      | Inr st1 \<Rightarrow> post_loop cfg api usr ip rest st1)"

definition post :: "settings \<Rightarrow> models_api \<Rightarrow> request \<Rightarrow> state \<Rightarrow> (exn + response) \<times> state" where
  "post cfg api req st =
     (let return_url = get_return_to cfg (QueryDict (POST req));
          terms_ids = getlist (POST req) ''terms''
      in if terms_ids = [] then (Inr (HttpResponseRedirect return_url), st)
         else
           (case post_user req st of
              Inl e \<Rightarrow> (Inl e, st)
            | Inr None \<Rightarrow> (Inr (HttpResponseRedirect ''/''), st)
            | Inr (Some usr) \<Rightarrow>
                (case post_ip_address cfg req of
                   Inl e \<Rightarrow> (Inl e, st)
                 | Inr ip \<Rightarrow>
                     (case post_loop cfg api usr ip terms_ids st of
                        (Some e, st1) \<Rightarrow> (Inl e, st1)
                      | (None, st1) \<Rightarrow> (Inr (HttpResponseRedirect return_url), st1)))))"

section \<open>GetTermsViewMixin.get_terms\<close>

text \<open>
  \<^verbatim>\<open>queryset.latest("date_active")\<close> orders the rows by \<open>date_active\<close>, descending, and
  takes the first; it raises DoesNotExist when there is none. \<open>date_le\<close> is the order
  of the backend on a nullable column. Among rows that compare equal the backend may
  return any; the model keeps the earliest in the table.
\<close>

definition date_le :: "bool \<Rightarrow> int option \<Rightarrow> int option \<Rightarrow> bool" where
  "date_le nulls_high a b =
     (case a of
        None \<Rightarrow> (case b of None \<Rightarrow> True | Some y \<Rightarrow> \<not> nulls_high)
      | Some x \<Rightarrow> (case b of None \<Rightarrow> nulls_high | Some y \<Rightarrow> x \<le> y))"

fun latest_from :: "bool \<Rightarrow> terms_row \<Rightarrow> terms_row list \<Rightarrow> terms_row" where
  "latest_from nulls_high best [] = best"
| "latest_from nulls_high best (r # rs) =
     latest_from nulls_high
       (if date_le nulls_high (date_active r) (date_active best) then best else r) rs"

definition latest :: "bool \<Rightarrow> terms_row list \<Rightarrow> exn + terms_row" where
  "latest nulls_high rows =
     (case rows of
        [] \<Rightarrow> Inl DoesNotExist
      | r # rs \<Rightarrow> Inr (latest_from nulls_high r rs))"

text \<open>
  Lines 30 to 47. The keyword arguments come from the URL and are strings; a string is
  true in a condition when it is not empty. The filter on \<open>version_number\<close> converts
  the text of the version, and compares decimals by value.
\<close>

definition get_terms :: "settings \<Rightarrow> models_api \<Rightarrow> request \<Rightarrow> state \<Rightarrow> (string \<rightharpoonup> string) \<Rightarrow> exn + terms_row list" where
  "get_terms cfg api req st kwargs =
     (case kwargs ''slug'' of
        Some (c # cs) \<Rightarrow>
          (case kwargs ''version'' of
             Some (d # ds) \<Rightarrow>
               (case py_decimal (d # ds) of
                  None \<Rightarrow> Inl ValidationError
                | Some n \<Rightarrow>
                    and_then
                      (latest (database_nulls_high cfg)
                         (filter (\<lambda>t. slug t = c # cs \<and> dec_eq (version_number t) n)
                            (terms_table st)))
                      (\<lambda>t. Inr [t]))
           | _ \<Rightarrow> and_then (get_active api st (c # cs)) (\<lambda>t. Inr [t]))
      | _ \<Rightarrow> Inr (get_active_terms_not_agreed_to api st (user req)))"

section \<open>EmailTermsView.form_valid\<close>

text \<open>
  What the view calls in Django: the translation of a message, the rendering of the email
  template for the terms of the form, and \<^verbatim>\<open>send_mail\<close> with subject, body, sender and
  recipients. Each may give any result; \<^verbatim>\<open>send_mail\<close> returns the number of messages
  sent or raises.
\<close>

record django_api =
  gettext :: "string \<Rightarrow> string"
  render_email :: "terms_row option \<Rightarrow> exn + string"
  send_mail :: "string \<Rightarrow> string \<Rightarrow> string \<Rightarrow> string option list \<Rightarrow> exn + nat"

text \<open>The cleaned data of the form: the terms chosen, and the text fields.\<close>

record form =
  cleaned_terms :: "terms_row option"
  cleaned_data :: "string \<rightharpoonup> string"

definition add_message :: "level \<Rightarrow> string \<Rightarrow> state \<Rightarrow> state" where
  "add_message lvl msg st = st\<lparr>messages := messages st @ [(lvl, msg)]\<rparr>"

text \<open>
  \<^verbatim>\<open>FormView.form_valid\<close> redirects to the success URL; \<^verbatim>\<open>get_success_url\<close> raises
  ImproperlyConfigured for an empty one.
\<close>

definition super_form_valid :: "string \<Rightarrow> exn + response" where
  "super_form_valid success_url =
     (if success_url = [] then Inl ImproperlyConfigured
      else Inr (HttpResponseRedirect success_url))"

text \<open>Lines 185 to 215. Only SMTPException is caught.\<close>

definition form_valid :: "settings \<Rightarrow> django_api \<Rightarrow> form \<Rightarrow> state \<Rightarrow> (exn + response) \<times> state" where
  "form_valid cfg dj frm st =
     (case render_email dj (cleaned_terms frm) of
        Inl e \<Rightarrow> (Inl e, st)
      | Inr template_rendered \<Rightarrow>
          (case send_mail dj
                  (dict_get (Dict (cleaned_data frm)) ''email_subject'' (gettext dj ''Terms''))
                  template_rendered
                  (DEFAULT_FROM_EMAIL cfg)
                  [cleaned_data frm ''email_address''] of
             Inl e \<Rightarrow>
               if e = SMTPException then
                 (super_form_valid (get_return_to cfg (Dict (cleaned_data frm))),
                  add_message ERROR (gettext dj ''An Error Occurred Sending Your Message.'') st)
               else (Inl e, st)
           | Inr n \<Rightarrow>
               (super_form_valid (get_return_to cfg (Dict (cleaned_data frm))),
                add_message INFO (gettext dj ''Terms and Conditions Sent.'') st)))"

section \<open>Example data\<close>

text \<open>
  A small site, used to run the views on concrete input: two terms documents, one user,
  default settings, and a safety check that accepts the paths of this host.
\<close>

definition ex_cfg :: settings where
  "ex_cfg =
     \<lparr>TERMS_STORE_IP_ADDRESS = None, TERMS_IP_HEADER_NAME = None,
      TERMS_CACHE_SECONDS_setting = None, DEFAULT_FROM_EMAIL = ''terms@example.com'',
      host_and_scheme_allowed = (\<lambda>u. take 1 u = ''/'' \<and> take 2 u \<noteq> ''//''),
      database_nulls_high = False\<rparr>"

definition ex_terms1 :: terms_row where
  "ex_terms1 =
     \<lparr>pk = 1, slug = ''site-terms'', version_number = Decimal 1 0, date_active = Some 20200101\<rparr>"

definition ex_terms2 :: terms_row where
  "ex_terms2 =
     \<lparr>pk = 2, slug = ''contrib-terms'', version_number = Decimal 1 0, date_active = Some 20230101\<rparr>"

definition ex_terms1_again :: terms_row where
  "ex_terms1_again =
     \<lparr>pk = 3, slug = ''site-terms'', version_number = Decimal 100 (- 2),
      date_active = Some 20210101\<rparr>"

definition ex_terms1_undated :: terms_row where
  "ex_terms1_undated =
     \<lparr>pk = 4, slug = ''site-terms'', version_number = Decimal 1 0, date_active = None\<rparr>"

definition ex_terms1_next :: terms_row where
  "ex_terms1_next =
     \<lparr>pk = 5, slug = ''site-terms'', version_number = Decimal 2 0, date_active = Some 20240101\<rparr>"

definition ex_user :: user_row where
  "ex_user = \<lparr>user_pk = 7, username = ''ann''\<rparr>"

definition ex_api :: models_api where
  "ex_api =
     \<lparr>get_active_terms_list = (\<lambda>tbl. tbl),
      get_active = (\<lambda>st s. objects_get (\<lambda>t. slug t = s) (terms_table st)),
      get_active_terms_not_agreed_to = (\<lambda>st u. terms_table st)\<rparr>"

definition ex_state :: state where
  "ex_state =
     \<lparr>terms_table = [ex_terms1, ex_terms2], user_table = [ex_user], userterms_table = [],
      cache = Map.empty, cache_sets = [], messages = []\<rparr>"

text \<open>
  The user has accepted the first document, and the cache still holds the list computed
  before that.
\<close>

definition ex_state_accepted :: state where
  "ex_state_accepted =
     ex_state
       \<lparr>userterms_table := [\<lparr>ut_user = 7, ut_terms = 1, ip_address = ''203.0.113.5''\<rparr>],
        cache := [''tandc.not_agreed_terms_ann'' \<mapsto> ([ex_terms2, ex_terms1], 30)]\<rparr>"

text \<open>
  The first document has three rows with the same version, one of them without a date,
  and a later version.
\<close>

definition ex_state_duplicate :: state where
  "ex_state_duplicate =
     ex_state\<lparr>terms_table :=
       [ex_terms1, ex_terms2, ex_terms1_again, ex_terms1_undated, ex_terms1_next]\<rparr>"

definition ex_cfg_nulls_high :: settings where
  "ex_cfg_nulls_high = ex_cfg\<lparr>database_nulls_high := True\<rparr>"

definition ex_request :: "string list \<Rightarrow> request" where
  "ex_request ids =
     \<lparr>GET = Map.empty, POST = [''terms'' \<mapsto> ids, ''returnTo'' \<mapsto> [''/home'']],
      user = Some ex_user, session = Map.empty,
      META = [''REMOTE_ADDR'' \<mapsto> ''203.0.113.5, 10.0.0.1'']\<rparr>"

definition ex_request_no_header :: "string list \<Rightarrow> request" where
  "ex_request_no_header ids = (ex_request ids)\<lparr>META := Map.empty\<rparr>"

definition ex_django :: django_api where
  "ex_django =
     \<lparr>gettext = (\<lambda>s. s), render_email = (\<lambda>t. Inr ''The terms.''),
      send_mail = (\<lambda>subject body sender recipients. Inl SMTPException)\<rparr>"

definition ex_form :: form where
  "ex_form =
     \<lparr>cleaned_terms = Some ex_terms1,
      cleaned_data = [''email_address'' \<mapsto> ''bob@example.com'', ''returnTo'' \<mapsto> ''/home'']\<rparr>"

section \<open>Auxiliary facts\<close>

subsection \<open>Strings and the return URL\<close>

lemma iri_to_uri_slash: "iri_to_uri ''/'' = ''/''"
  by code_simp

lemma quote_byte_nonempty: "quote_byte b \<noteq> []"
  by (simp add: quote_byte_def percent_def)

lemma iri_to_uri_nonempty: "iri \<noteq> [] \<Longrightarrow> iri_to_uri iri \<noteq> []"
  by (cases iri) (auto simp: iri_to_uri_def utf8_def quote_byte_nonempty)

lemma py_strip_Nil: "py_strip [] = []"
  by (simp add: py_strip_def)

lemma is_safe_url_nonempty: "is_safe_url cfg url \<Longrightarrow> url \<noteq> []"
  by (auto simp: is_safe_url_def url_has_allowed_host_and_scheme_def py_strip_Nil Let_def split: if_splits)

lemma get_return_to_nonempty: "get_return_to cfg d \<noteq> []"
  by (auto simp: get_return_to_def Let_def iri_to_uri_nonempty is_safe_url_nonempty)

lemma py_split_first: "\<exists>ws. py_split sep s = takeWhile (\<lambda>c. c \<noteq> sep) s # ws"
  by (induction s) auto

lemma index0_py_split: "index0 (py_split sep s) = Inr (takeWhile (\<lambda>c. c \<noteq> sep) s)"
  using py_split_first [of sep s] by (auto simp: index0_def)

lemma py_strip_decomp:
  "\<exists>lead trail. s = lead @ py_strip s @ trail \<and>
       (\<forall>c \<in> set lead. is_space c) \<and> (\<forall>c \<in> set trail. is_space c)"
proof -
  let ?d = "dropWhile is_space s"
  let ?pre = "takeWhile is_space s"
  let ?post = "rev (takeWhile is_space (rev ?d))"
  have "rev (takeWhile is_space (rev ?d) @ dropWhile is_space (rev ?d)) =
          rev (dropWhile is_space (rev ?d)) @ rev (takeWhile is_space (rev ?d))"
    by (rule rev_append)
  then have "rev (rev ?d) = py_strip s @ ?post"
    by (simp only: takeWhile_dropWhile_id py_strip_def)
  then have "?d = py_strip s @ ?post"
    by (simp only: rev_rev_ident)
  then have "?pre @ ?d = ?pre @ py_strip s @ ?post" by simp
  then have "s = ?pre @ py_strip s @ ?post" by simp
  moreover have "\<forall>c \<in> set ?pre. is_space c"
    by (auto dest: set_takeWhileD)
  moreover have "\<forall>c \<in> set ?post. is_space c"
    by (auto dest: set_takeWhileD)
  ultimately show ?thesis by blast
qed

lemma last_dropWhile: "dropWhile P xs \<noteq> [] \<Longrightarrow> last (dropWhile P xs) = last xs"
  by (induction xs) (auto split: if_splits)

lemma py_strip_ends:
  assumes "py_strip s \<noteq> []"
  shows "\<not> is_space (hd (py_strip s)) \<and> \<not> is_space (last (py_strip s))"
proof -
  let ?d = "dropWhile is_space s"
  let ?e = "dropWhile is_space (rev ?d)"
  from assms have e: "?e \<noteq> []" by (simp add: py_strip_def)
  have d: "?d \<noteq> []"
  proof
    assume a: "?d = []"
    have "?e = []" unfolding a by simp
    with e show False by contradiction
  qed
  have "hd (py_strip s) = last ?e"
    using e by (simp add: py_strip_def hd_rev)
  also have "\<dots> = last (rev ?d)" using e by (rule last_dropWhile)
  also have "\<dots> = hd ?d" using d by (simp add: last_rev)
  finally have "\<not> is_space (hd (py_strip s))"
    using d hd_dropWhile [of is_space s] by simp
  moreover have "last (py_strip s) = hd ?e"
    using e by (simp add: py_strip_def last_rev)
  then have "\<not> is_space (last (py_strip s))"
    using e hd_dropWhile [of is_space "rev ?d"] by simp
  ultimately show ?thesis by simp
qed

subsection \<open>One pass of the loop, and the loop\<close>

lemma post_try_duplicate:
  assumes "py_int terms_id = Some n"
    and "objects_get (\<lambda>t. pk t = n) (terms_table st) = Inr t"
    and "accepted (userterms_table st) (user_pk usr) (pk t)"
  shows "post_try cfg api usr ip terms_id st = Inl IntegrityError"
  using assms by (simp add: post_try_def and_then_def save_def)

lemma objects_get_none:
  "\<forall>r \<in> set rows. \<not> cond r \<Longrightarrow> objects_get cond rows = Inl DoesNotExist"
  by (simp add: objects_get_def filter_False)

lemma post_step_not_found:
  assumes "py_int terms_id = Some n" and "\<forall>t \<in> set (terms_table st). pk t \<noteq> n"
  shows "post_step cfg api usr ip terms_id st = Inl DoesNotExist"
  using assms by (simp add: post_step_def post_try_def and_then_def objects_get_none)

lemma post_loop_append:
  "post_loop cfg api usr ip (xs @ ys) st =
     (case post_loop cfg api usr ip xs st of
        (Some e, st1) \<Rightarrow> (Some e, st1)
      | (None, st1) \<Rightarrow> post_loop cfg api usr ip ys st1)"
  by (induction xs arbitrary: st) (auto split: sum.splits)

lemma post_step_cases:
  assumes "post_step cfg api usr ip terms_id st = Inr st1"
  shows "st1 = st \<or>
         (\<exists>t::terms_row. \<not> accepted (userterms_table st) (user_pk usr) (pk t) \<and>
              st1 = cache_set (not_agreed_key usr)
                      (not_agreed_terms api usr
                         (st\<lparr>userterms_table := userterms_table st @
                               [\<lparr>ut_user = user_pk usr, ut_terms = pk t, ip_address = ip\<rparr>]\<rparr>))
                      (TERMS_CACHE_SECONDS cfg)
                      (st\<lparr>userterms_table := userterms_table st @
                               [\<lparr>ut_user = user_pk usr, ut_terms = pk t, ip_address = ip\<rparr>]\<rparr>))"
proof (cases "post_try cfg api usr ip terms_id st")
  case (Inl e)
  with assms show ?thesis by (simp add: post_step_def split: if_splits)
next
  case (Inr s)
  with assms have s: "s = st1" by (simp add: post_step_def)
  from Inr obtain n where n: "py_int terms_id = Some n"
    by (auto simp: post_try_def split: option.splits)
  from Inr n obtain t where t: "objects_get (\<lambda>t. pk t = n) (terms_table st) = Inr t"
    by (cases "objects_get (\<lambda>t. pk t = n) (terms_table st)") (auto simp: post_try_def and_then_def)
  from Inr n t have na: "\<not> accepted (userterms_table st) (user_pk usr) (pk t)"
    by (auto simp: post_try_def and_then_def save_def split: if_splits)
  from Inr n t na s have eq:
    "st1 = cache_set (not_agreed_key usr)
           (not_agreed_terms api usr
              (st\<lparr>userterms_table := userterms_table st @
                    [\<lparr>ut_user = user_pk usr, ut_terms = pk t, ip_address = ip\<rparr>]\<rparr>))
           (TERMS_CACHE_SECONDS cfg)
           (st\<lparr>userterms_table := userterms_table st @
                    [\<lparr>ut_user = user_pk usr, ut_terms = pk t, ip_address = ip\<rparr>]\<rparr>)"
    by (simp add: post_try_def and_then_def save_def)
  show ?thesis
    by (rule disjI2, rule exI [of _ t], rule conjI [OF na eq])
qed

lemma post_step_terms_table:
  "post_step cfg api usr ip terms_id st = Inr st1 \<Longrightarrow> terms_table st1 = terms_table st"
  by (drule post_step_cases) (auto simp: cache_set_def)

lemma post_loop_terms_table:
  "post_loop cfg api usr ip ids st = (r, st1) \<Longrightarrow> terms_table st1 = terms_table st"
proof (induction ids arbitrary: st)
  case Nil
  then show ?case by simp
next
  case (Cons i ids)
  show ?case
  proof (cases "post_step cfg api usr ip i st")
    case (Inl e)
    with Cons.prems show ?thesis by simp
  next
    case (Inr s)
    with Cons.prems have "post_loop cfg api usr ip ids s = (r, st1)" by simp
    then have "terms_table st1 = terms_table s" by (rule Cons.IH)
    with post_step_terms_table [OF Inr] show ?thesis by simp
  qed
qed

lemma not_agreed_terms_accepted:
  "not_agreed_terms api usr st =
     sort_key slug
       (filter (\<lambda>t. \<not> accepted (userterms_table st) (user_pk usr) (pk t))
          (get_active_terms_list api (terms_table st)))"
  by (simp add: not_agreed_terms_def accepted_def) (metis (mono_tags, lifting))

lemma not_agreed_terms_cache_set [simp]:
  "not_agreed_terms api usr (cache_set k v ttl st) = not_agreed_terms api usr st"
  by (simp add: not_agreed_terms_def cache_set_def)

lemma set_not_agreed_terms:
  "set (not_agreed_terms api usr st) =
     {t \<in> set (get_active_terms_list api (terms_table st)).
        \<not> accepted (userterms_table st) (user_pk usr) (pk t)}"
  by (auto simp: not_agreed_terms_accepted)

lemma sorted_not_agreed_terms: "sorted (map slug (not_agreed_terms api usr st))"
  by (simp add: not_agreed_terms_accepted)

lemma post_loop_inv:
  assumes "post_loop cfg api usr ip ids st = (r, st')"
  shows "\<exists>new. userterms_table st' = userterms_table st @ new \<and>
           (\<forall>x \<in> set new. ip_address x = ip \<and> ut_user x = user_pk usr) \<and>
           (new = [] \<longrightarrow> st' = st) \<and>
           (new \<noteq> [] \<longrightarrow> cache st' (not_agreed_key usr) =
               Some (not_agreed_terms api usr st', TERMS_CACHE_SECONDS cfg))"
  using assms
proof (induction ids arbitrary: st)
  case Nil
  then show ?case by simp
next
  case (Cons i ids)
  show ?case
  proof (cases "post_step cfg api usr ip i st")
    case (Inl e)
    with Cons.prems show ?thesis by simp
  next
    case (Inr s)
    with Cons.prems have loop: "post_loop cfg api usr ip ids s = (r, st')" by simp
    from Cons.IH [OF loop] obtain new where
        tbl: "userterms_table st' = userterms_table s @ new"
      and ips: "\<forall>x \<in> set new. ip_address x = ip \<and> ut_user x = user_pk usr"
      and same: "new = [] \<longrightarrow> st' = s"
      and fresh: "new \<noteq> [] \<longrightarrow> cache st' (not_agreed_key usr) =
                    Some (not_agreed_terms api usr st', TERMS_CACHE_SECONDS cfg)"
      by blast
    from post_step_cases [OF Inr] show ?thesis
    proof
      assume "s = st"
      with tbl ips same fresh show ?thesis by blast
    next
      assume "\<exists>t::terms_row. \<not> accepted (userterms_table st) (user_pk usr) (pk t) \<and>
              s = cache_set (not_agreed_key usr)
                      (not_agreed_terms api usr
                         (st\<lparr>userterms_table := userterms_table st @
                               [\<lparr>ut_user = user_pk usr, ut_terms = pk t, ip_address = ip\<rparr>]\<rparr>))
                      (TERMS_CACHE_SECONDS cfg)
                      (st\<lparr>userterms_table := userterms_table st @
                               [\<lparr>ut_user = user_pk usr, ut_terms = pk t, ip_address = ip\<rparr>]\<rparr>)"
      then obtain t :: terms_row where
        s: "s = cache_set (not_agreed_key usr)
                      (not_agreed_terms api usr
                         (st\<lparr>userterms_table := userterms_table st @
                               [\<lparr>ut_user = user_pk usr, ut_terms = pk t, ip_address = ip\<rparr>]\<rparr>))
                      (TERMS_CACHE_SECONDS cfg)
                      (st\<lparr>userterms_table := userterms_table st @
                               [\<lparr>ut_user = user_pk usr, ut_terms = pk t, ip_address = ip\<rparr>]\<rparr>)"
        by blast
      let ?row = "\<lparr>ut_user = user_pk usr, ut_terms = pk t, ip_address = ip\<rparr>"
      have s_tbl: "userterms_table s = userterms_table st @ [?row]"
        by (simp add: s cache_set_def)
      have "not_agreed_terms api usr s =
              not_agreed_terms api usr (st\<lparr>userterms_table := userterms_table st @ [?row]\<rparr>)"
        by (simp add: s)
      moreover have "cache s (not_agreed_key usr) =
              Some (not_agreed_terms api usr (st\<lparr>userterms_table := userterms_table st @ [?row]\<rparr>),
                    TERMS_CACHE_SECONDS cfg)"
        by (simp add: s cache_set_def)
      ultimately have s_cache: "cache s (not_agreed_key usr) =
                       Some (not_agreed_terms api usr s, TERMS_CACHE_SECONDS cfg)"
        by simp
      have 1: "userterms_table st' = userterms_table st @ (?row # new)"
        using tbl s_tbl by simp
      have 2: "\<forall>x \<in> set (?row # new). ip_address x = ip \<and> ut_user x = user_pk usr"
        using ips by simp
      have 3: "cache st' (not_agreed_key usr) =
                 Some (not_agreed_terms api usr st', TERMS_CACHE_SECONDS cfg)"
      proof (cases "new = []")
        case True
        with same have "st' = s" by simp
        with s_cache show ?thesis by simp
      next
        case False
        with fresh show ?thesis by simp
      qed
      show ?thesis
        by (rule exI [of _ "?row # new"]) (use 1 2 3 in simp)
    qed
  qed
qed


lemma post_ip_address_comma:
  assumes "TERMS_STORE_IP_ADDRESS cfg \<noteq> Some False"
    and "META req (case TERMS_IP_HEADER_NAME cfg of
                     None \<Rightarrow> DEFAULT_TERMS_IP_HEADER_NAME | Some name \<Rightarrow> name) = Some v"
    and "CHR '','' \<in> set v"
  shows "post_ip_address cfg req = Inr (py_strip (takeWhile (\<lambda>c. c \<noteq> CHR '','') v))"
  using assms
  by (cases "TERMS_STORE_IP_ADDRESS cfg")
     (auto simp: post_ip_address_def index0_py_split and_then_def)

lemma post_cases:
  assumes "post cfg api req st = (res, st')"
  shows "st' = st \<or>
         (\<exists>usr ip r. post_user req st = Inr (Some usr) \<and> post_ip_address cfg req = Inr ip \<and>
             post_loop cfg api usr ip (getlist (POST req) ''terms'') st = (r, st'))"
  using assms
  by (auto simp: post_def Let_def split: if_splits sum.splits option.splits prod.splits)

lemma post_ip_recorded:
  assumes "TERMS_STORE_IP_ADDRESS cfg \<noteq> Some False"
    and "META req (case TERMS_IP_HEADER_NAME cfg of
                     None \<Rightarrow> DEFAULT_TERMS_IP_HEADER_NAME | Some name \<Rightarrow> name) = Some v"
    and "CHR '','' \<in> set v"
    and "post cfg api req st = (res, st')"
  shows "\<exists>new. userterms_table st' = userterms_table st @ new \<and>
           (\<forall>r \<in> set new.
              ip_address r = py_strip (takeWhile (\<lambda>c. c \<noteq> CHR '','') v) \<and>
              (\<exists>lead trail. takeWhile (\<lambda>c. c \<noteq> CHR '','') v = lead @ ip_address r @ trail \<and>
                  (\<forall>c \<in> set lead. is_space c) \<and> (\<forall>c \<in> set trail. is_space c)) \<and>
              (ip_address r \<noteq> [] \<longrightarrow>
                 \<not> is_space (hd (ip_address r)) \<and> \<not> is_space (last (ip_address r))))"
proof -
  let ?first = "takeWhile (\<lambda>c. c \<noteq> CHR '','') v"
  have ip: "post_ip_address cfg req = Inr (py_strip ?first)"
    using assms(1-3) by (rule post_ip_address_comma)
  from post_cases [OF assms(4)] show ?thesis
  proof
    assume "st' = st"
    then have "userterms_table st' = userterms_table st @ []" by simp
    then show ?thesis by fastforce
  next
    assume "\<exists>usr ip r. post_user req st = Inr (Some usr) \<and> post_ip_address cfg req = Inr ip \<and>
             post_loop cfg api usr ip (getlist (POST req) ''terms'') st = (r, st')"
    with ip obtain usr r where
      "post_loop cfg api usr (py_strip ?first) (getlist (POST req) ''terms'') st = (r, st')"
      by auto
    from post_loop_inv [OF this] obtain new where
      new: "userterms_table st' = userterms_table st @ new"
        "\<forall>x \<in> set new. ip_address x = py_strip ?first"
      by blast
    have "\<forall>r \<in> set new.
              ip_address r = py_strip ?first \<and>
              (\<exists>lead trail. ?first = lead @ ip_address r @ trail \<and>
                  (\<forall>c \<in> set lead. is_space c) \<and> (\<forall>c \<in> set trail. is_space c)) \<and>
              (ip_address r \<noteq> [] \<longrightarrow>
                 \<not> is_space (hd (ip_address r)) \<and> \<not> is_space (last (ip_address r)))"
      using new(2) py_strip_decomp [of ?first] py_strip_ends [of ?first] by simp
    with new(1) show ?thesis by blast
  qed
qed

subsection \<open>The order of \<open>date_active\<close>\<close>

lemma date_le_refl: "date_le nh a a"
  by (simp add: date_le_def split: option.splits)

lemma date_le_total: "date_le nh a b \<or> date_le nh b a"
  by (auto simp: date_le_def split: option.splits)

lemma date_le_trans: "date_le nh a b \<Longrightarrow> date_le nh b c \<Longrightarrow> date_le nh a c"
  by (auto simp: date_le_def split: option.splits)

lemma latest_from_mem: "latest_from nh best rs \<in> set (best # rs)"
  by (induction rs arbitrary: best) auto

lemma latest_from_ge_best:
  "date_le nh (date_active best) (date_active (latest_from nh best rs))"
proof (induction rs arbitrary: best)
  case Nil
  show ?case by (simp add: date_le_refl)
next
  case (Cons r rs)
  show ?case
  proof (cases "date_le nh (date_active r) (date_active best)")
    case True
    then show ?thesis using Cons.IH [of best] by simp
  next
    case False
    then have "date_le nh (date_active best) (date_active r)"
      using date_le_total by blast
    then show ?thesis
      using False Cons.IH [of r] by (auto intro: date_le_trans)
  qed
qed

lemma latest_from_greatest:
  "r \<in> set (best # rs) \<Longrightarrow> date_le nh (date_active r) (date_active (latest_from nh best rs))"
proof (induction rs arbitrary: best)
  case Nil
  then show ?case by (simp add: date_le_refl)
next
  case (Cons x rs)
  let ?b = "if date_le nh (date_active x) (date_active best) then best else x"
  have step: "latest_from nh best (x # rs) = latest_from nh ?b rs" by simp
  have b_best: "date_le nh (date_active best) (date_active ?b)"
    using date_le_total [of nh "date_active x" "date_active best"] by (auto simp: date_le_refl)
  have b_x: "date_le nh (date_active x) (date_active ?b)"
    by (auto simp: date_le_refl)
  from Cons.prems consider "r = best" | "r = x" | "r \<in> set rs" by auto
  then show ?case
  proof cases
    case 1
    with b_best latest_from_ge_best [of nh ?b rs] show ?thesis
      unfolding step by (blast intro: date_le_trans)
  next
    case 2
    with b_x latest_from_ge_best [of nh ?b rs] show ?thesis
      unfolding step by (blast intro: date_le_trans)
  next
    case 3
    then have "r \<in> set (?b # rs)" by simp
    from Cons.IH [OF this] show ?thesis unfolding step .
  qed
qed

section \<open>The claims\<close>

subsection \<open>C1: an id that resolves to no row\<close>

text \<open>
  C1 (amended). The specification has a submitted id without a \<open>TermsAndConditions\<close>
  row skipped and the batch continued. The view catches IntegrityError only: the lookup
  raises DoesNotExist, which leaves the loop and the view.

  For a request whose user and address are found: when the ids before \<open>terms_id\<close> are
  processed without an exception and reach the state \<open>st1\<close>, and \<open>terms_id\<close> is the
  decimal text of a number that is the key of no row, then \<open>post\<close> raises DoesNotExist
  in the state \<open>st1\<close>, whatever the ids after it are: they are not processed.
\<close>

theorem post_not_found_propagates:
  assumes "post_user req st = Inr (Some usr)"
    and "post_ip_address cfg req = Inr ip"
    and "getlist (POST req) ''terms'' = before @ terms_id # rest"
    and "post_loop cfg api usr ip before st = (None, st1)"
    and "py_int terms_id = Some n"
    and "\<forall>t \<in> set (terms_table st). pk t \<noteq> n"
  shows "post cfg api req st = (Inl DoesNotExist, st1)"
proof -
  have "terms_table st1 = terms_table st"
    using assms(4) by (rule post_loop_terms_table)
  with assms(5,6) have "post_step cfg api usr ip terms_id st1 = Inl DoesNotExist"
    by (simp add: post_step_not_found)
  then have "post_loop cfg api usr ip (before @ terms_id # rest) st = (Some DoesNotExist, st1)"
    using assms(4) by (simp add: post_loop_append)
  then show ?thesis
    using assms(1,2,3) by (simp add: post_def Let_def)
qed

theorem post_not_found_propagates_witness:
  "post ex_cfg ex_api (ex_request [''1'', ''3'', ''2'']) ex_state =
     (Inl DoesNotExist, snd (post_loop ex_cfg ex_api ex_user ''203.0.113.5'' [''1''] ex_state))"
proof -
  have h1: "post_user (ex_request [''1'', ''3'', ''2'']) ex_state = Inr (Some ex_user)"
    by code_simp
  have h2: "post_ip_address ex_cfg (ex_request [''1'', ''3'', ''2'']) = Inr ''203.0.113.5''"
    by code_simp
  have h3: "getlist (POST (ex_request [''1'', ''3'', ''2''])) ''terms'' = [''1''] @ ''3'' # [''2'']"
    by code_simp
  have "fst (post_loop ex_cfg ex_api ex_user ''203.0.113.5'' [''1''] ex_state) = None"
    by code_simp
  then have h4: "post_loop ex_cfg ex_api ex_user ''203.0.113.5'' [''1''] ex_state =
                   (None, snd (post_loop ex_cfg ex_api ex_user ''203.0.113.5'' [''1''] ex_state))"
    by (metis prod.collapse)
  have h5: "py_int ''3'' = Some 3"
    by code_simp
  have h6: "\<forall>t \<in> set (terms_table ex_state). pk t \<noteq> 3"
    by code_simp
  show ?thesis
    using post_not_found_propagates [OF h1 h2 h3 h4 h5 h6] .
qed

text \<open>
  The statement of the specification fails on the batch \<open>1, 3, 2\<close> where no row has
  the key 3: the exception propagates, and the only acceptance stored is that of the
  first id, although the third id is valid and not yet accepted.
\<close>

theorem post_not_found_counterexample:
  "fst (post ex_cfg ex_api (ex_request [''1'', ''3'', ''2'']) ex_state) = Inl DoesNotExist \<and>
   map ut_terms
     (userterms_table (snd (post ex_cfg ex_api (ex_request [''1'', ''3'', ''2'']) ex_state))) = [1]"
  by code_simp

subsection \<open>C2: the cache after a batch\<close>

text \<open>
  C2 (amended). The specification has the cache entry of the user hold the freshly
  computed list after every non-empty batch. The view writes the entry inside the
  \<^verbatim>\<open>try\<close>, after a successful \<^verbatim>\<open>save()\<close> only.

  For a request whose user is found, and whatever the outcome of \<open>post\<close>: if the batch
  stored at least one acceptance, the entry under the key of the user holds, with the
  timeout \<open>TERMS_CACHE_SECONDS\<close>, the list computed from the final state, that is the
  active terms without those the user has accepted, ordered by slug; so every acceptance
  of the batch is reflected, whichever ids were duplicates. If the batch stored no
  acceptance, the state, and with it the cache, is unchanged.
\<close>

theorem post_cache_fresh:
  assumes "post cfg api req st = (res, st')"
    and "post_user req st = Inr (Some usr)"
  shows "(userterms_table st' \<noteq> userterms_table st \<longrightarrow>
            (\<exists>v. cache st' (not_agreed_key usr) = Some (v, TERMS_CACHE_SECONDS cfg) \<and>
                 v = not_agreed_terms api usr st' \<and>
                 set v = {t \<in> set (get_active_terms_list api (terms_table st')).
                            \<not> accepted (userterms_table st') (user_pk usr) (pk t)} \<and>
                 sorted (map slug v))) \<and>
         (userterms_table st' = userterms_table st \<longrightarrow> st' = st)"
proof -
  from post_cases [OF assms(1)] show ?thesis
  proof
    assume "st' = st"
    then show ?thesis by simp
  next
    assume "\<exists>usr ip r. post_user req st = Inr (Some usr) \<and> post_ip_address cfg req = Inr ip \<and>
             post_loop cfg api usr ip (getlist (POST req) ''terms'') st = (r, st')"
    with assms(2) obtain ip r where
      "post_loop cfg api usr ip (getlist (POST req) ''terms'') st = (r, st')"
      by auto
    from post_loop_inv [OF this] show ?thesis
      by (auto simp: set_not_agreed_terms sorted_not_agreed_terms)
  qed
qed

theorem post_cache_fresh_witness:
  "cache (snd (post ex_cfg ex_api (ex_request [''2'', ''2'']) ex_state))
     ''tandc.not_agreed_terms_ann'' = Some ([ex_terms1], 30)"
proof -
  let ?st = "snd (post ex_cfg ex_api (ex_request [''2'', ''2'']) ex_state)"
  have h1: "post ex_cfg ex_api (ex_request [''2'', ''2'']) ex_state =
              (fst (post ex_cfg ex_api (ex_request [''2'', ''2'']) ex_state), ?st)"
    by simp
  have h2: "post_user (ex_request [''2'', ''2'']) ex_state = Inr (Some ex_user)"
    by code_simp
  have c: "userterms_table ?st \<noteq> userterms_table ex_state"
    by code_simp
  have k: "not_agreed_key ex_user = ''tandc.not_agreed_terms_ann''"
    by code_simp
  have t: "TERMS_CACHE_SECONDS ex_cfg = 30"
    by code_simp
  have v: "not_agreed_terms ex_api ex_user ?st = [ex_terms1]"
    by code_simp
  show ?thesis
    using post_cache_fresh [OF h1 h2] c unfolding k t v by blast
qed

text \<open>
  The statement of the specification fails on a batch of duplicates only. The user has
  accepted the first document, and the cache holds a list from before that acceptance;
  the batch \<open>1\<close> ends with the redirect and leaves the stale entry, while the list
  computed afresh holds the second document only.
\<close>

theorem post_cache_stale_counterexample:
  "fst (post ex_cfg ex_api (ex_request [''1'']) ex_state_accepted) =
     Inr (HttpResponseRedirect ''/home'') \<and>
   cache (snd (post ex_cfg ex_api (ex_request [''1'']) ex_state_accepted))
     ''tandc.not_agreed_terms_ann'' = Some ([ex_terms2, ex_terms1], 30) \<and>
   not_agreed_terms ex_api ex_user (snd (post ex_cfg ex_api (ex_request [''1'']) ex_state_accepted)) =
     [ex_terms2]"
  by code_simp

subsection \<open>C3: a duplicate acceptance\<close>

text \<open>
  C3. When the id is the key of a row that the user has accepted already, the insertion
  violates the uniqueness of (user, terms): the IntegrityError is caught, the pass of the
  loop ends normally with the state unchanged, and the loop goes on with the remaining
  ids as if the id had not been submitted.
\<close>

theorem post_duplicate_noop:
  assumes "py_int terms_id = Some n"
    and "objects_get (\<lambda>t. pk t = n) (terms_table st) = Inr t"
    and "accepted (userterms_table st) (user_pk usr) (pk t)"
  shows "post_step cfg api usr ip terms_id st = Inr st \<and>
         post_loop cfg api usr ip (terms_id # rest) st = post_loop cfg api usr ip rest st"
  using post_try_duplicate [OF assms] by (simp add: post_step_def)

theorem post_duplicate_noop_witness:
  "accepted (userterms_table ex_state_accepted) (user_pk ex_user) (pk ex_terms1) \<and>
   post_step ex_cfg ex_api ex_user ''203.0.113.5'' ''1'' ex_state_accepted = Inr ex_state_accepted \<and>
   post_loop ex_cfg ex_api ex_user ''203.0.113.5'' [''1'', ''2''] ex_state_accepted =
     post_loop ex_cfg ex_api ex_user ''203.0.113.5'' [''2''] ex_state_accepted"
proof -
  have h1: "py_int ''1'' = Some 1"
    by code_simp
  have h2: "objects_get (\<lambda>t. pk t = 1) (terms_table ex_state_accepted) = Inr ex_terms1"
    by code_simp
  have h3: "accepted (userterms_table ex_state_accepted) (user_pk ex_user) (pk ex_terms1)"
    by code_simp
  show ?thesis
    using h3 post_duplicate_noop [OF h1 h2 h3, of ex_cfg ex_api "''203.0.113.5''" "[''2'']"]
    by simp
qed

subsection \<open>C4: the address recorded\<close>

text \<open>
  C4. When the storing of addresses is not switched off and the value of the configured
  header contains a comma, every acceptance record that \<open>post\<close> adds carries the first
  comma-separated entry of the value with the whitespace around it removed: the entry
  is the recorded address between two runs of whitespace, and the recorded address
  neither starts nor ends with whitespace. For the value \<open>203.0.113.5, 10.0.0.1\<close> the
  address is \<open>203.0.113.5\<close>.
\<close>

theorem post_ip_first_entry:
  assumes "TERMS_STORE_IP_ADDRESS cfg \<noteq> Some False"
    and "META req (case TERMS_IP_HEADER_NAME cfg of
                     None \<Rightarrow> DEFAULT_TERMS_IP_HEADER_NAME | Some name \<Rightarrow> name) = Some v"
    and "CHR '','' \<in> set v"
    and "post cfg api req st = (res, st')"
  shows "(\<exists>new. userterms_table st' = userterms_table st @ new \<and>
           (\<forall>r \<in> set new.
              ip_address r = py_strip (takeWhile (\<lambda>c. c \<noteq> CHR '','') v) \<and>
              (\<exists>lead trail. takeWhile (\<lambda>c. c \<noteq> CHR '','') v = lead @ ip_address r @ trail \<and>
                  (\<forall>c \<in> set lead. is_space c) \<and> (\<forall>c \<in> set trail. is_space c)) \<and>
              (ip_address r \<noteq> [] \<longrightarrow>
                 \<not> is_space (hd (ip_address r)) \<and> \<not> is_space (last (ip_address r))))) \<and>
         py_strip (takeWhile (\<lambda>c. c \<noteq> CHR '','') ''203.0.113.5, 10.0.0.1'') = ''203.0.113.5''"
proof -
  have "py_strip (takeWhile (\<lambda>c. c \<noteq> CHR '','') ''203.0.113.5, 10.0.0.1'') = ''203.0.113.5''"
    by code_simp
  with post_ip_recorded [OF assms] show ?thesis by simp
qed

theorem post_ip_first_entry_witness:
  "map ip_address
     (userterms_table (snd (post ex_cfg ex_api (ex_request [''1'', ''2'']) ex_state))) =
     [''203.0.113.5'', ''203.0.113.5'']"
proof -
  let ?st = "snd (post ex_cfg ex_api (ex_request [''1'', ''2'']) ex_state)"
  have h1: "TERMS_STORE_IP_ADDRESS ex_cfg \<noteq> Some False"
    by code_simp
  have h2: "META (ex_request [''1'', ''2''])
              (case TERMS_IP_HEADER_NAME ex_cfg of
                 None \<Rightarrow> DEFAULT_TERMS_IP_HEADER_NAME | Some name \<Rightarrow> name) =
            Some ''203.0.113.5, 10.0.0.1''"
    by code_simp
  have h3: "CHR '','' \<in> set ''203.0.113.5, 10.0.0.1''"
    by code_simp
  have h4: "post ex_cfg ex_api (ex_request [''1'', ''2'']) ex_state =
              (fst (post ex_cfg ex_api (ex_request [''1'', ''2'']) ex_state), ?st)"
    by simp
  have e: "py_strip (takeWhile (\<lambda>c. c \<noteq> CHR '','') ''203.0.113.5, 10.0.0.1'') = ''203.0.113.5''"
    by code_simp
  have l: "length (userterms_table ?st) = 2" "userterms_table ex_state = []"
    by code_simp+
  from post_ip_first_entry [OF h1 h2 h3 h4] obtain new where
    new: "userterms_table ?st = userterms_table ex_state @ new"
      "\<forall>r \<in> set new. ip_address r = ''203.0.113.5''"
    unfolding e by blast
  from new(1) l have "length new = 2" "userterms_table ?st = new" by simp_all
  then obtain a b where "new = [a, b]"
    by (metis One_nat_def Suc_1 length_0_conv length_Suc_conv)
  with new(2) \<open>userterms_table ?st = new\<close> show ?thesis by simp
qed

subsection \<open>C5: what is written to the cache\<close>



subsection \<open>C6: the terms for a slug and a version\<close>

text \<open>
  C6 (amended). The specification has the row with the latest \<open>date_active\<close> returned
  when several rows share the slug and the version number. The view takes the first row
  in the descending order of \<open>date_active\<close> of the database, and a row without a date
  is first where NULL sorts above every date.

  When the keyword arguments hold a slug and a version, both non-empty: a version that is
  no decimal number makes the lookup raise ValidationError. For a decimal number,
  \<open>get_terms\<close> looks among all rows of the table, active or not. If some row has that
  slug and a version number equal to it, the result is a list of one such row; no
  matching row with a date is later than a result with a date; the result has no date
  while a matching row has one only where NULL sorts high, and it has a date while a
  matching row has none only where NULL sorts low. If no row matches, the lookup raises
  DoesNotExist.
\<close>

theorem get_terms_slug_version:
  assumes "kwargs ''slug'' = Some s" and "s \<noteq> []"
    and "kwargs ''version'' = Some v" and "v \<noteq> []"
  shows "(py_decimal v = None \<longrightarrow> get_terms cfg api req st kwargs = Inl ValidationError) \<and>
         (\<forall>n. py_decimal v = Some n \<longrightarrow>
            (if \<exists>r \<in> set (terms_table st). slug r = s \<and> dec_eq (version_number r) n
             then \<exists>t::terms_row. get_terms cfg api req st kwargs = Inr [t] \<and>
                    t \<in> set (terms_table st) \<and> slug t = s \<and> dec_eq (version_number t) n \<and>
                    (\<forall>r \<in> set (terms_table st). slug r = s \<and> dec_eq (version_number r) n \<longrightarrow>
                       (\<forall>x y. date_active r = Some x \<and> date_active t = Some y \<longrightarrow> x \<le> y) \<and>
                       (date_active t = None \<and> date_active r \<noteq> None \<longrightarrow>
                          database_nulls_high cfg) \<and>
                       (date_active t \<noteq> None \<and> date_active r = None \<longrightarrow>
                          \<not> database_nulls_high cfg))
             else get_terms cfg api req st kwargs = Inl DoesNotExist))"
proof (intro conjI allI impI)
  from assms obtain c cs d ds where s: "s = c # cs" and v: "v = d # ds"
    by (cases s; cases v) auto
  assume "py_decimal v = None"
  then show "get_terms cfg api req st kwargs = Inl ValidationError"
    using assms(1,3) by (simp add: get_terms_def s v)
next
  fix n
  assume n: "py_decimal v = Some n"
  let ?m = "filter (\<lambda>t. slug t = s \<and> dec_eq (version_number t) n) (terms_table st)"
  let ?nh = "database_nulls_high cfg"
  from assms obtain c cs d ds where s: "s = c # cs" and v: "v = d # ds"
    by (cases s; cases v) auto
  have gt: "get_terms cfg api req st kwargs = and_then (latest ?nh ?m) (\<lambda>t. Inr [t])"
    using assms(1,3) n by (simp add: get_terms_def s v)
  show "if \<exists>r \<in> set (terms_table st). slug r = s \<and> dec_eq (version_number r) n
        then \<exists>t::terms_row. get_terms cfg api req st kwargs = Inr [t] \<and>
               t \<in> set (terms_table st) \<and> slug t = s \<and> dec_eq (version_number t) n \<and>
               (\<forall>r \<in> set (terms_table st). slug r = s \<and> dec_eq (version_number r) n \<longrightarrow>
                  (\<forall>x y. date_active r = Some x \<and> date_active t = Some y \<longrightarrow> x \<le> y) \<and>
                  (date_active t = None \<and> date_active r \<noteq> None \<longrightarrow> ?nh) \<and>
                  (date_active t \<noteq> None \<and> date_active r = None \<longrightarrow> \<not> ?nh))
        else get_terms cfg api req st kwargs = Inl DoesNotExist"
  proof (cases ?m)
    case Nil
    then have "\<not> (\<exists>r \<in> set (terms_table st). slug r = s \<and> dec_eq (version_number r) n)"
      by (auto simp: filter_empty_conv)
    moreover have "get_terms cfg api req st kwargs = Inl DoesNotExist"
      using Nil gt by (simp add: latest_def and_then_def)
    ultimately show ?thesis by simp
  next
    case (Cons b rs)
    let ?t = "latest_from ?nh b rs"
    have res: "get_terms cfg api req st kwargs = Inr [?t]"
      using Cons gt by (simp add: latest_def and_then_def)
    have "?t \<in> set ?m" using latest_from_mem [of ?nh b rs] Cons by simp
    then have mem: "?t \<in> set (terms_table st)" "slug ?t = s" "dec_eq (version_number ?t) n"
      by auto
    have great: "(\<forall>x y. date_active r = Some x \<and> date_active ?t = Some y \<longrightarrow> x \<le> y) \<and>
                 (date_active ?t = None \<and> date_active r \<noteq> None \<longrightarrow> ?nh) \<and>
                 (date_active ?t \<noteq> None \<and> date_active r = None \<longrightarrow> \<not> ?nh)"
      if "r \<in> set (terms_table st)" "slug r = s \<and> dec_eq (version_number r) n" for r
    proof -
      from that have "r \<in> set ?m" by simp
      then have "r \<in> set (b # rs)" using Cons by simp
      then have "date_le ?nh (date_active r) (date_active ?t)"
        by (rule latest_from_greatest)
      then show ?thesis by (auto simp: date_le_def split: option.splits)
    qed
    have ex: "\<exists>r \<in> set (terms_table st). slug r = s \<and> dec_eq (version_number r) n"
      using mem by blast
    have "\<exists>t::terms_row. get_terms cfg api req st kwargs = Inr [t] \<and>
               t \<in> set (terms_table st) \<and> slug t = s \<and> dec_eq (version_number t) n \<and>
               (\<forall>r \<in> set (terms_table st). slug r = s \<and> dec_eq (version_number r) n \<longrightarrow>
                  (\<forall>x y. date_active r = Some x \<and> date_active t = Some y \<longrightarrow> x \<le> y) \<and>
                  (date_active t = None \<and> date_active r \<noteq> None \<longrightarrow> ?nh) \<and>
                  (date_active t \<noteq> None \<and> date_active r = None \<longrightarrow> \<not> ?nh))"
      using res mem great by blast
    with ex show ?thesis by simp
  qed
qed

theorem get_terms_slug_version_witness:
  "get_terms ex_cfg ex_api (ex_request []) ex_state_duplicate
     [''slug'' \<mapsto> ''site-terms'', ''version'' \<mapsto> ''1.0''] = Inr [ex_terms1_again]"
proof -
  let ?kw = "[''slug'' \<mapsto> ''site-terms'', ''version'' \<mapsto> ''1.0'']"
  have h1: "?kw ''slug'' = Some ''site-terms''" by simp
  have h2: "''site-terms'' \<noteq> []" by simp
  have h3: "?kw ''version'' = Some ''1.0''" by simp
  have h4: "''1.0'' \<noteq> []" by simp
  have n: "py_decimal ''1.0'' = Some (Decimal 10 (- 1))"
    by code_simp
  have tbl: "terms_table ex_state_duplicate =
               [ex_terms1, ex_terms2, ex_terms1_again, ex_terms1_undated, ex_terms1_next]"
    by code_simp
  have s: "slug ex_terms1 = ''site-terms''" "slug ex_terms2 \<noteq> ''site-terms''"
    "slug ex_terms1_again = ''site-terms''"
    by code_simp+
  have e: "dec_eq (version_number ex_terms1) (Decimal 10 (- 1))"
    "dec_eq (version_number ex_terms1_again) (Decimal 10 (- 1))"
    "\<not> dec_eq (version_number ex_terms1_next) (Decimal 10 (- 1))"
    by code_simp+
  have d: "date_active ex_terms1 = Some 20200101" "date_active ex_terms1_again = Some 20210101"
    "date_active ex_terms1_undated = None" "\<not> database_nulls_high ex_cfg"
    by code_simp+
  have ex: "\<exists>r \<in> set (terms_table ex_state_duplicate).
              slug r = ''site-terms'' \<and> dec_eq (version_number r) (Decimal 10 (- 1))"
    unfolding tbl using s e by simp
  from get_terms_slug_version [OF h1 h2 h3 h4, of ex_cfg ex_api "ex_request []" ex_state_duplicate]
    n ex
  obtain t :: terms_row where t:
    "get_terms ex_cfg ex_api (ex_request []) ex_state_duplicate ?kw = Inr [t]"
    "t \<in> set (terms_table ex_state_duplicate)" "slug t = ''site-terms''"
    "dec_eq (version_number t) (Decimal 10 (- 1))"
    "\<forall>r \<in> set (terms_table ex_state_duplicate).
        slug r = ''site-terms'' \<and> dec_eq (version_number r) (Decimal 10 (- 1)) \<longrightarrow>
        (\<forall>x y. date_active r = Some x \<and> date_active t = Some y \<longrightarrow> x \<le> y) \<and>
        (date_active t = None \<and> date_active r \<noteq> None \<longrightarrow> database_nulls_high ex_cfg)"
    by auto
  from t(5) s e have again:
    "\<forall>y. date_active ex_terms1_again = Some 20210101 \<and> date_active t = Some y \<longrightarrow> 20210101 \<le> y"
    and dated: "date_active t = None \<and> date_active ex_terms1 \<noteq> None \<longrightarrow> database_nulls_high ex_cfg"
    unfolding tbl by auto
  from dated d have "t \<noteq> ex_terms1_undated" by auto
  moreover from again d have "t \<noteq> ex_terms1" by auto
  ultimately have "t = ex_terms1_again"
    using t(2,3,4) s e unfolding tbl by auto
  with t(1) show ?thesis by simp
qed

text \<open>
  The statement of the specification fails where NULL sorts high: three rows share the
  slug and the version 1, two of them with a date, and the lookup returns the row without
  a date instead of the row dated latest.
\<close>

theorem get_terms_undated_counterexample:
  "database_nulls_high ex_cfg_nulls_high \<and>
   get_terms ex_cfg_nulls_high ex_api (ex_request []) ex_state_duplicate
     [''slug'' \<mapsto> ''site-terms'', ''version'' \<mapsto> ''1''] = Inr [ex_terms1_undated] \<and>
   date_active ex_terms1_undated = None \<and>
   ex_terms1_again \<in> set (terms_table ex_state_duplicate) \<and>
   slug ex_terms1_again = ''site-terms'' \<and>
   dec_eq (version_number ex_terms1_again) (Decimal 1 0) \<and>
   date_active ex_terms1_again = Some 20210101"
  by code_simp

subsection \<open>C7: a failure of the mail transport\<close>

text \<open>
  C7. When the template is rendered and \<^verbatim>\<open>send_mail\<close> raises SMTPException,
  \<open>form_valid\<close> returns the redirect to the return URL and the only change of the state
  is one more message, of level ERROR: the acceptance records, the cache and the cache
  writes are those of the state before.
\<close>

theorem form_valid_smtp_failure:
  assumes "render_email dj (cleaned_terms frm) = Inr body"
    and "send_mail dj (dict_get (Dict (cleaned_data frm)) ''email_subject'' (gettext dj ''Terms''))
           body (DEFAULT_FROM_EMAIL cfg) [cleaned_data frm ''email_address''] = Inl SMTPException"
  shows "form_valid cfg dj frm st =
           (Inr (HttpResponseRedirect (get_return_to cfg (Dict (cleaned_data frm)))),
            st\<lparr>messages := messages st @
                 [(ERROR, gettext dj ''An Error Occurred Sending Your Message.'')]\<rparr>)"
  using assms
  by (simp add: form_valid_def super_form_valid_def get_return_to_nonempty add_message_def)

theorem form_valid_smtp_failure_witness:
  "form_valid ex_cfg ex_django ex_form ex_state =
     (Inr (HttpResponseRedirect ''/home''),
      ex_state\<lparr>messages := [(ERROR, ''An Error Occurred Sending Your Message.'')]\<rparr>)"
proof -
  have h1: "render_email ex_django (cleaned_terms ex_form) = Inr ''The terms.''"
    by code_simp
  have h2: "send_mail ex_django
              (dict_get (Dict (cleaned_data ex_form)) ''email_subject'' (gettext ex_django ''Terms''))
              ''The terms.'' (DEFAULT_FROM_EMAIL ex_cfg) [cleaned_data ex_form ''email_address''] =
            Inl SMTPException"
    by code_simp
  have u: "get_return_to ex_cfg (Dict (cleaned_data ex_form)) = ''/home''"
    by code_simp
  have m: "messages ex_state = []"
    by code_simp
  have g: "gettext ex_django ''An Error Occurred Sending Your Message.'' =
             ''An Error Occurred Sending Your Message.''"
    by code_simp
  show ?thesis
    using form_valid_smtp_failure [OF h1 h2, of ex_state] by (simp add: u m g)
qed

subsection \<open>C8: the header is absent\<close>

text \<open>
  C8 (amended). The property is stated for every POST with the storing of addresses on
  and the header absent. The view reads the header only after two earlier exits: the
  empty list of ids, and the user who is neither logged in nor in a partial pipeline.

  For a POST with a non-empty list of ids whose user is found, with the setting
  \<open>TERMS_STORE_IP_ADDRESS\<close> unset or True and the configured header absent from the
  request, \<open>post\<close> raises TypeError and the state is unchanged: no acceptance record is
  created and nothing is written to the cache.
\<close>

theorem post_missing_header:
  assumes "getlist (POST req) ''terms'' \<noteq> []"
    and "post_user req st = Inr (Some usr)"
    and "TERMS_STORE_IP_ADDRESS cfg = None \<or> TERMS_STORE_IP_ADDRESS cfg = Some True"
    and "META req (case TERMS_IP_HEADER_NAME cfg of
                     None \<Rightarrow> DEFAULT_TERMS_IP_HEADER_NAME | Some name \<Rightarrow> name) = None"
  shows "post cfg api req st = (Inl TypeError, st)"
proof -
  have "post_ip_address cfg req = Inl TypeError"
    using assms(3,4) by (auto simp: post_ip_address_def)
  then show ?thesis
    using assms(1,2) by (simp add: post_def Let_def)
qed

theorem post_missing_header_witness:
  "getlist (POST (ex_request_no_header [''1''])) ''terms'' \<noteq> [] \<and>
   META (ex_request_no_header [''1'']) ''REMOTE_ADDR'' = None \<and>
   post ex_cfg ex_api (ex_request_no_header [''1'']) ex_state = (Inl TypeError, ex_state)"
proof -
  have h1: "getlist (POST (ex_request_no_header [''1''])) ''terms'' \<noteq> []"
    by code_simp
  have h2: "post_user (ex_request_no_header [''1'']) ex_state = Inr (Some ex_user)"
    by code_simp
  have h3: "TERMS_STORE_IP_ADDRESS ex_cfg = None \<or> TERMS_STORE_IP_ADDRESS ex_cfg = Some True"
    by code_simp
  have h4: "META (ex_request_no_header [''1''])
              (case TERMS_IP_HEADER_NAME ex_cfg of
                 None \<Rightarrow> DEFAULT_TERMS_IP_HEADER_NAME | Some name \<Rightarrow> name) = None"
    by code_simp
  have h5: "META (ex_request_no_header [''1'']) ''REMOTE_ADDR'' = None"
    by code_simp
  show ?thesis
    using h1 h5 post_missing_header [OF h1 h2 h3 h4, of ex_api] by simp
qed

text \<open>
  The statement for every POST fails on one with no ids: the storing of addresses is on,
  the header is absent, and the view answers with the redirect instead of a TypeError.
\<close>

theorem post_missing_header_counterexample:
  "TERMS_STORE_IP_ADDRESS ex_cfg = None \<and>
   META (ex_request_no_header []) ''REMOTE_ADDR'' = None \<and>
   fst (post ex_cfg ex_api (ex_request_no_header []) ex_state) =
     Inr (HttpResponseRedirect ''/home'')"
  by code_simp

subsection \<open>C9: no ids submitted\<close>

text \<open>
  C9. When the list of submitted ids is empty, \<open>post\<close> returns the redirect to the
  validated return URL and the state is the one before: no acceptance record is created
  and no cache entry is written.
\<close>

theorem post_empty_terms:
  assumes "getlist (POST req) ''terms'' = []"
  shows "post cfg api req st =
           (Inr (HttpResponseRedirect (get_return_to cfg (QueryDict (POST req)))), st)"
  using assms by (simp add: post_def Let_def)

theorem post_empty_terms_witness:
  "getlist (POST (ex_request [])) ''terms'' = [] \<and>
   post ex_cfg ex_api (ex_request []) ex_state = (Inr (HttpResponseRedirect ''/home''), ex_state)"
proof -
  have h: "getlist (POST (ex_request [])) ''terms'' = []"
    by code_simp
  have u: "get_return_to ex_cfg (QueryDict (POST (ex_request []))) = ''/home''"
    by code_simp
  show ?thesis
    using h u post_empty_terms [OF h, of ex_cfg ex_api ex_state] by simp
qed

subsection \<open>C10: the return URL\<close>

text \<open>
  C10. For every dictionary, \<open>get_return_to\<close> returns the encoded value of
  \<open>returnTo\<close> when the value passes the safety check, the path \<^verbatim>\<open>/\<close> when the value
  fails the check, and the path \<^verbatim>\<open>/\<close> when the dictionary holds no value for
  \<open>returnTo\<close>.
\<close>

theorem get_return_to_result:
  "(\<forall>v. dict_value d ''returnTo'' = Some v \<and> is_safe_url cfg v
        \<longrightarrow> get_return_to cfg d = iri_to_uri v) \<and>
   (\<forall>v. dict_value d ''returnTo'' = Some v \<and> \<not> is_safe_url cfg v
        \<longrightarrow> get_return_to cfg d = ''/'') \<and>
   (dict_value d ''returnTo'' = None \<longrightarrow> get_return_to cfg d = ''/'')"
  by (auto simp: get_return_to_def dict_get_def Let_def iri_to_uri_slash)

theorem get_return_to_result_witness:
  "get_return_to ex_cfg (QueryDict [''returnTo'' \<mapsto> [''/home'']]) = ''/home'' \<and>
   get_return_to ex_cfg (Dict [''returnTo'' \<mapsto> ''//evil.example'']) = ''/'' \<and>
   get_return_to ex_cfg (Dict Map.empty) = ''/''"
proof -
  have a: "dict_value (QueryDict [''returnTo'' \<mapsto> [''/home'']]) ''returnTo'' = Some ''/home'' \<and>
           is_safe_url ex_cfg ''/home''"
    by code_simp
  have b: "dict_value (Dict [''returnTo'' \<mapsto> ''//evil.example'']) ''returnTo'' =
             Some ''//evil.example'' \<and> \<not> is_safe_url ex_cfg ''//evil.example''"
    by code_simp
  have c: "dict_value (Dict Map.empty) ''returnTo'' = None"
    by simp
  have d: "iri_to_uri ''/home'' = ''/home''"
    by code_simp
  show ?thesis
    using a b c d
      get_return_to_result [where d = "QueryDict [''returnTo'' \<mapsto> [''/home'']]" and cfg = ex_cfg]
      get_return_to_result [where d = "Dict [''returnTo'' \<mapsto> ''//evil.example'']" and cfg = ex_cfg]
      get_return_to_result [where d = "Dict Map.empty" and cfg = ex_cfg]
    by metis
qed

end
